theory Spec2Isabelle
  imports Main
begin

section \<open>Data model\<close>

text \<open>
  The interface \<^verbatim>\<open>RenameOperation\<close> of \<^verbatim>\<open>src/index.ts\<close>: the original file name, the
  new file name and an optional reason.
\<close>

record RenameOperation =
  original :: string
  new :: string
  reason :: "string option"

text \<open>
  The validation loop has two sinks: \<^verbatim>\<open>validationErrors.push(msg)\<close> and
  \<^verbatim>\<open>console.warn(msg)\<close>. The report lists what both receive, in the order in which the
  loop produces it: a pushed message is an issue of severity \<open>Error\<close>, a message given to
  \<^verbatim>\<open>console.warn\<close> is an issue of severity \<open>Warning\<close>.
\<close>

datatype severity = Error | Warning

datatype ValidationIssue = ValidationIssue (severity: severity) (message: string)

record validation_state =
  report :: "ValidationIssue list"
  newNames :: "string set"

section \<open>The validation loop\<close>

definition unknown_original :: "RenameOperation \<Rightarrow> ValidationIssue" where
  "unknown_original op = ValidationIssue Error (''Original file not found: '' @ original op)"

definition duplicate_target :: "RenameOperation \<Rightarrow> ValidationIssue" where
  "duplicate_target op = ValidationIssue Error (''Duplicate target filename: '' @ new op)"

definition target_exists :: "RenameOperation \<Rightarrow> ValidationIssue" where
  "target_exists op =
     ValidationIssue Warning (''Warning: Target file '' @ new op @ '' already exists.'')"

definition push :: "ValidationIssue \<Rightarrow> validation_state \<Rightarrow> validation_state" where
  "push i st = st\<lparr>report := report st @ [i]\<rparr>"

text \<open>
  One iteration of \<^verbatim>\<open>for (const op of operations)\<close>. \<open>onlyFiles\<close> is the directory
  snapshot, \<open>pathExists n\<close> stands for \<^verbatim>\<open>fs.pathExists(path.join(targetDir, n))\<close>, and
  \<open>operations\<close> is the whole plan, which \<^verbatim>\<open>operations.find\<close> searches.
\<close>

definition validate_op ::
  "string list \<Rightarrow> (string \<Rightarrow> bool) \<Rightarrow> RenameOperation list \<Rightarrow>
   validation_state \<Rightarrow> RenameOperation \<Rightarrow> validation_state" where
  "validate_op onlyFiles pathExists operations st op =
     (let st1 = (if original op \<notin> set onlyFiles then push (unknown_original op) st else st);
          st2 = (if new op \<in> newNames st1 then push (duplicate_target op) st1 else st1);
          st3 = st2\<lparr>newNames := insert (new op) (newNames st2)\<rparr>
      in if pathExists (new op) \<and> find (\<lambda>x. original x = new op) operations = None
         then push (target_exists op) st3 else st3)"

fun validation_loop ::
  "string list \<Rightarrow> (string \<Rightarrow> bool) \<Rightarrow> RenameOperation list \<Rightarrow>
   validation_state \<Rightarrow> RenameOperation list \<Rightarrow> validation_state" where
  "validation_loop onlyFiles pathExists operations st [] = st"
| "validation_loop onlyFiles pathExists operations st (op # rest) =
     validation_loop onlyFiles pathExists operations
       (validate_op onlyFiles pathExists operations st op) rest"

definition validate ::
  "string list \<Rightarrow> (string \<Rightarrow> bool) \<Rightarrow> RenameOperation list \<Rightarrow> validation_state" where
  "validate onlyFiles pathExists operations =
     validation_loop onlyFiles pathExists operations
       \<lparr>report = [], newNames = {}\<rparr> operations"

text \<open>The array \<^verbatim>\<open>validationErrors\<close> and the lines given to \<^verbatim>\<open>console.warn\<close>.\<close>

definition validationErrors :: "validation_state \<Rightarrow> string list" where
  "validationErrors st = map message (filter (\<lambda>i. severity i = Error) (report st))"

definition warnings :: "validation_state \<Rightarrow> string list" where
  "warnings st = map message (filter (\<lambda>i. severity i = Warning) (report st))"

text \<open>
  The state in which iteration \<open>k\<close> starts, and the issues iteration \<open>k\<close> appends to the
  report.
\<close>

definition state_before ::
  "string list \<Rightarrow> (string \<Rightarrow> bool) \<Rightarrow> RenameOperation list \<Rightarrow> nat \<Rightarrow> validation_state" where
  "state_before onlyFiles pathExists operations k =
     validation_loop onlyFiles pathExists operations
       \<lparr>report = [], newNames = {}\<rparr> (take k operations)"

definition issues_at ::
  "string list \<Rightarrow> (string \<Rightarrow> bool) \<Rightarrow> RenameOperation list \<Rightarrow> nat \<Rightarrow> ValidationIssue list" where
  "issues_at onlyFiles pathExists operations k =
     drop (length (report (state_before onlyFiles pathExists operations k)))
       (report (validate_op onlyFiles pathExists operations
          (state_before onlyFiles pathExists operations k) (operations ! k)))"

text \<open>
  The gate behind the loop: with a non-empty \<^verbatim>\<open>validationErrors\<close> the user is asked
  \<^verbatim>\<open>continueAnyway\<close>.
\<close>

definition asks_continueAnyway :: "validation_state \<Rightarrow> bool" where
  "asks_continueAnyway st = (length (validationErrors st) > 0)"

section \<open>The execution loop\<close>

text \<open>
  A line of console output: \<^verbatim>\<open>console.log(msg)\<close>, \<^verbatim>\<open>console.warn(msg)\<close>,
  \<^verbatim>\<open>console.error(msg)\<close>, or \<^verbatim>\<open>console.error(msg, err)\<close> with the caught error.
\<close>

datatype 'e console_line = Log string | Warn string | Err string | ErrorLine string 'e

definition renamed_line :: "RenameOperation \<Rightarrow> 'e console_line" where
  "renamed_line op = Log (''Renamed: '' @ original op @ '' -> '' @ new op)"

definition failed_line :: "RenameOperation \<Rightarrow> 'e \<Rightarrow> 'e console_line" where
  "failed_line op err = ErrorLine (''Failed to rename '' @ original op @ '':'') err"

text \<open>
  One iteration of the execution loop. \<open>rename fs a b\<close> stands for
  \<^verbatim>\<open>fs.rename(path.join(targetDir, a), path.join(targetDir, b))\<close> on the filesystem \<open>fs\<close>:
  it returns \<open>Inr ()\<close> when the call resolves and \<open>Inl err\<close> when it throws \<open>err\<close>,
  together with the filesystem it leaves.
\<close>

definition execute_op ::
  "('fs \<Rightarrow> string \<Rightarrow> string \<Rightarrow> ('e + unit) \<times> 'fs) \<Rightarrow> 'fs \<Rightarrow> RenameOperation \<Rightarrow>
   'e console_line \<times> 'fs" where
  "execute_op rename fs op =
     (case rename fs (original op) (new op) of
        (Inr u, fs') \<Rightarrow> (renamed_line op, fs')
      | (Inl err, fs') \<Rightarrow> (failed_line op err, fs'))"

fun execution_loop ::
  "('fs \<Rightarrow> string \<Rightarrow> string \<Rightarrow> ('e + unit) \<times> 'fs) \<Rightarrow> 'fs \<Rightarrow> 'e console_line list \<Rightarrow>
   RenameOperation list \<Rightarrow> 'e console_line list \<times> 'fs" where
  "execution_loop rename fs console [] = (console, fs)"
| "execution_loop rename fs console (op # rest) =
     (case execute_op rename fs op of
        (line, fs') \<Rightarrow> execution_loop rename fs' (console @ [line]) rest)"

definition execute ::
  "('fs \<Rightarrow> string \<Rightarrow> string \<Rightarrow> ('e + unit) \<times> 'fs) \<Rightarrow> 'fs \<Rightarrow> RenameOperation list \<Rightarrow>
   'e console_line list \<times> 'fs" where
  "execute rename fs operations = execution_loop rename fs [] operations"

text \<open>The filesystem in which iteration \<open>k\<close> of the execution loop starts.\<close>

definition fs_before ::
  "('fs \<Rightarrow> string \<Rightarrow> string \<Rightarrow> ('e + unit) \<times> 'fs) \<Rightarrow> 'fs \<Rightarrow> RenameOperation list \<Rightarrow> nat \<Rightarrow> 'fs" where
  "fs_before rename fs operations k = snd (execute rename fs (take k operations))"

section \<open>From the proposed plan to the end of the run\<close>

text \<open>
  The lines \<^verbatim>\<open>Proposed Changes:\<close> (behind a line feed) and, for each operation,
  \<^verbatim>\<open>${op.original} -> ${op.new}  (${op.reason || 'No reason provided'})\<close>: a missing or
  empty reason is replaced.
\<close>

definition proposed_line :: "RenameOperation \<Rightarrow> 'e console_line" where
  "proposed_line op =
     Log (original op @ '' -> '' @ new op @ ''  (''
          @ (case reason op of
               None \<Rightarrow> ''No reason provided''
             | Some r \<Rightarrow> if r = [] then ''No reason provided'' else r)
          @ '')'')"

definition proposed_changes :: "RenameOperation list \<Rightarrow> 'e console_line list" where
  "proposed_changes operations =
     Log (CHR 0x0A # ''Proposed Changes:'') # map proposed_line operations"

text \<open>
  The lines of the validation: each warning as the loop writes it with
  \<^verbatim>\<open>console.warn\<close>, then, with a non-empty \<^verbatim>\<open>validationErrors\<close>, the header
  \<^verbatim>\<open>Validation Errors:\<close> and one line \<^verbatim>\<open>- ${e}\<close> per error, with
  \<^verbatim>\<open>console.error\<close>.
\<close>

definition validation_lines :: "validation_state \<Rightarrow> 'e console_line list" where
  "validation_lines st =
     map Warn (warnings st)
     @ (if asks_continueAnyway st
        then Err ''Validation Errors:'' # map (\<lambda>e. Err (''- '' @ e)) (validationErrors st)
        else [])"

text \<open>
  The part of \<^verbatim>\<open>main\<close> behind the parsing of the plan. An empty plan returns at once.
  Otherwise the proposed changes are printed and the plan is validated; with validation
  errors the user is asked \<^verbatim>\<open>continueAnyway\<close> and a negative answer returns; then the
  user is asked \<^verbatim>\<open>confirm\<close>, and the execution loop runs when the answer is positive.
  The two booleans are the answers the user gives when asked. The result is the validation
  state, the lines written to the console from the empty-plan test on, and the filesystem
  left behind.
\<close>

definition main_flow ::
  "('fs \<Rightarrow> string \<Rightarrow> bool) \<Rightarrow> ('fs \<Rightarrow> string \<Rightarrow> string \<Rightarrow> ('e + unit) \<times> 'fs) \<Rightarrow>
   string list \<Rightarrow> RenameOperation list \<Rightarrow> bool \<Rightarrow> bool \<Rightarrow> 'fs \<Rightarrow>
   validation_state \<times> 'e console_line list \<times> 'fs" where
  "main_flow pathExists rename onlyFiles operations continueAnyway confirm fs =
     (if length operations = 0
      then (\<lparr>report = [], newNames = {}\<rparr>,
            [Log ''No files matched the criteria for renaming.''], fs)
      else
        let st = validate onlyFiles (pathExists fs) operations;
            shown = proposed_changes operations @ validation_lines st
        in
        if asks_continueAnyway st \<and> \<not> continueAnyway then (st, shown, fs)
        else if confirm
        then (case execute rename fs operations of
                (console, fs') \<Rightarrow> (st, shown @ console @ [Log ''Done.''], fs'))
        else (st, shown @ [Log ''Operation cancelled.''], fs))"

subsection \<open>A directory of regular files\<close>

text \<open>
  Modelled from the spec: \<^verbatim>\<open>fs.rename\<close> and \<^verbatim>\<open>fs.pathExists\<close> belong to the library
  \<^verbatim>\<open>fs-extra\<close>, which is not part of the sources. The target directory is the set of the
  names of its entries. Renaming fails with \<open>ENOENT\<close> and changes nothing when the source
  does not exist; otherwise the source name disappears and the target name exists
  afterwards (an existing target is replaced).
\<close>

datatype io_error = ENOENT string string

type_synonym directory = "string set"

definition dir_pathExists :: "directory \<Rightarrow> string \<Rightarrow> bool" where
  "dir_pathExists d n = (n \<in> d)"

definition dir_rename :: "directory \<Rightarrow> string \<Rightarrow> string \<Rightarrow> (io_error + unit) \<times> directory" where
  "dir_rename d a b =
     (if a \<in> d then (Inr (), insert b (d - {a})) else (Inl (ENOENT a b), d))"

subsection \<open>Filename syntax\<close>

text \<open>
  The names that the specification calls syntactically invalid as a file name component:
  the empty name and a name that contains the path separator. The validation loop has no
  test of its own for them; the predicate serves to speak about such names.
\<close>

definition invalid_filename :: "string \<Rightarrow> bool" where
  "invalid_filename n = (n = [] \<or> CHR ''/'' \<in> set n)"

subsection \<open>Plans used as examples\<close>

definition rename_to :: "string \<Rightarrow> string \<Rightarrow> RenameOperation" where
  "rename_to a b = \<lparr>original = a, new = b, reason = None\<rparr>"

section \<open>Structure of the validation loop\<close>

lemma report_push: "report (push i st) = report st @ [i]"
  by (simp add: push_def)

lemma newNames_push: "newNames (push i st) = newNames st"
  by (simp add: push_def)

text \<open>What one iteration appends, written out check by check.\<close>

lemma report_validate_op:
  "report (validate_op S E P st op) =
     report st
     @ (if original op \<notin> set S then [unknown_original op] else [])
     @ (if new op \<in> newNames st then [duplicate_target op] else [])
     @ (if E (new op) \<and> find (\<lambda>x. original x = new op) P = None
        then [target_exists op] else [])"
  by (simp add: validate_op_def Let_def report_push newNames_push)

lemma newNames_validate_op:
  "newNames (validate_op S E P st op) = insert (new op) (newNames st)"
  by (simp add: validate_op_def Let_def report_push newNames_push)

lemma validation_loop_append:
  "validation_loop S E P st (xs @ ys) = validation_loop S E P (validation_loop S E P st xs) ys"
  by (induction xs arbitrary: st) simp_all

lemma newNames_validation_loop:
  "newNames (validation_loop S E P st xs) = newNames st \<union> new ` set xs"
  by (induction xs arbitrary: st) (simp_all add: newNames_validate_op)

lemma newNames_state_before:
  "newNames (state_before S E P k) = new ` set (take k P)"
  by (simp add: state_before_def newNames_validation_loop)

lemma state_before_Suc:
  assumes "k < length P"
  shows "state_before S E P (Suc k) = validate_op S E P (state_before S E P k) (P ! k)"
  using assms by (simp add: state_before_def take_Suc_conv_app_nth validation_loop_append)

lemma state_before_length: "state_before S E P (length P) = validate S E P"
  by (simp add: state_before_def validate_def)

lemma issues_at_eq:
  "issues_at S E P k =
     (if original (P ! k) \<notin> set S then [unknown_original (P ! k)] else [])
     @ (if new (P ! k) \<in> new ` set (take k P) then [duplicate_target (P ! k)] else [])
     @ (if E (new (P ! k)) \<and> find (\<lambda>x. original x = new (P ! k)) P = None
        then [target_exists (P ! k)] else [])"
  by (simp add: issues_at_def report_validate_op newNames_state_before)

lemma report_state_before_Suc:
  assumes "k < length P"
  shows "report (state_before S E P (Suc k)) = report (state_before S E P k) @ issues_at S E P k"
  using assms by (simp add: state_before_Suc issues_at_def report_validate_op)

lemma report_state_before:
  "k \<le> length P \<Longrightarrow>
   report (state_before S E P k) = concat (map (issues_at S E P) [0..<k])"
proof (induction k)
  case 0
  show ?case by (simp add: state_before_def)
next
  case (Suc k)
  then show ?case by (simp add: report_state_before_Suc)
qed

lemma report_validate:
  "report (validate S E P) = concat (map (issues_at S E P) [0..<length P])"
  using report_state_before [of "length P" P S E] by (simp add: state_before_length)

lemma issues_at_subset:
  assumes "k < length P"
  shows "set (issues_at S E P k) \<subseteq> set (report (validate S E P))"
  using assms by (auto simp: report_validate)

lemma error_in_validationErrors:
  "i \<in> set (report st) \<Longrightarrow> severity i = Error \<Longrightarrow> message i \<in> set (validationErrors st)"
  by (auto simp: validationErrors_def)

lemma earlier_new_iff:
  assumes "k \<le> length P"
  shows "(x \<in> new ` set (take k P)) = (\<exists>j<k. new (P ! j) = x)"
proof
  assume "x \<in> new ` set (take k P)"
  then obtain y where y: "y \<in> set (take k P)" and x: "x = new y" by blast
  from y obtain j where "j < length (take k P)" and "take k P ! j = y"
    by (auto simp: in_set_conv_nth)
  with assms x show "\<exists>j<k. new (P ! j) = x" by auto
next
  assume "\<exists>j<k. new (P ! j) = x"
  then obtain j where j: "j < k" and x: "new (P ! j) = x" by blast
  from j assms have "take k P ! j \<in> set (take k P)" by (intro nth_mem) simp
  with j x show "x \<in> new ` set (take k P)" by force
qed

lemma find_original_None:
  "(find (\<lambda>x. original x = n) P = None) = (\<forall>x\<in>set P. original x \<noteq> n)"
  by (auto simp: find_None_iff)

text \<open>The per-iteration issues in elementary terms.\<close>

lemma issues_at_checks:
  assumes "k < length P"
  shows "issues_at S E P k =
     (if original (P ! k) \<notin> set S then [unknown_original (P ! k)] else [])
     @ (if \<exists>j<k. new (P ! j) = new (P ! k) then [duplicate_target (P ! k)] else [])
     @ (if E (new (P ! k)) \<and> (\<forall>x\<in>set P. original x \<noteq> new (P ! k))
        then [target_exists (P ! k)] else [])"
proof -
  from assms have "k \<le> length P" by simp
  then show ?thesis
    by (simp only: issues_at_eq earlier_new_iff find_original_None)
qed

lemma issue_distinct:
  "unknown_original a \<noteq> duplicate_target b"
  "unknown_original a \<noteq> target_exists b"
  "duplicate_target a \<noteq> target_exists b"
  "duplicate_target a \<noteq> unknown_original b"
  "target_exists a \<noteq> unknown_original b"
  "target_exists a \<noteq> duplicate_target b"
  by (simp_all add: unknown_original_def duplicate_target_def target_exists_def)

lemma issue_severity:
  "severity (unknown_original a) = Error"
  "severity (duplicate_target a) = Error"
  "severity (target_exists a) = Warning"
  by (simp_all add: unknown_original_def duplicate_target_def target_exists_def)

lemma validationErrors_empty_iff:
  "(validationErrors st = []) = (\<forall>i\<in>set (report st). severity i = Warning)"
proof -
  have "\<And>i. (severity i \<noteq> Error) = (severity i = Warning)"
    by (metis severity.exhaust severity.distinct(1))
  then show ?thesis by (simp add: validationErrors_def filter_empty_conv)
qed

lemmas run_simps =
  validate_def validate_op_def Let_def push_def unknown_original_def duplicate_target_def
  target_exists_def validationErrors_def warnings_def issues_at_def state_before_def
  asks_continueAnyway_def rename_to_def dir_pathExists_def

lemma report_issue_cases:
  assumes "i \<in> set (report (validate S E P))"
  shows "\<exists>op\<in>set P. i = unknown_original op \<or> i = duplicate_target op \<or> i = target_exists op"
proof -
  from assms obtain k where k: "k < length P" and i: "i \<in> set (issues_at S E P k)"
    by (auto simp: report_validate)
  from k have "P ! k \<in> set P" by simp
  moreover from i have "i = unknown_original (P ! k) \<or> i = duplicate_target (P ! k)
      \<or> i = target_exists (P ! k)"
    by (auto simp: issues_at_eq split: if_splits)
  ultimately show ?thesis by blast
qed

lemma warning_not_in_validationErrors:
  "message (target_exists op) \<notin> set (validationErrors (validate S E P))"
proof
  assume "message (target_exists op) \<in> set (validationErrors (validate S E P))"
  then obtain i where i: "i \<in> set (report (validate S E P))" and sev: "severity i = Error"
    and msg: "message i = message (target_exists op)"
    by (auto simp: validationErrors_def)
  from report_issue_cases [OF i] obtain op' where
    "i = unknown_original op' \<or> i = duplicate_target op' \<or> i = target_exists op'" by blast
  with sev msg show False
    by (auto simp: unknown_original_def duplicate_target_def target_exists_def)
qed

lemma warning_in_warnings:
  "i \<in> set (report st) \<Longrightarrow> severity i = Warning \<Longrightarrow> message i \<in> set (warnings st)"
  by (auto simp: warnings_def)

text \<open>The errors of an iteration are those of the first two checks.\<close>

lemma errors_at_checks:
  assumes "k < length P"
  shows "filter (\<lambda>i. severity i = Error) (issues_at S E P k) =
     (if original (P ! k) \<notin> set S then [unknown_original (P ! k)] else [])
     @ (if \<exists>j<k. new (P ! j) = new (P ! k) then [duplicate_target (P ! k)] else [])"
  by (simp add: issues_at_checks [OF assms] issue_severity)

lemma distinct_new_no_earlier:
  assumes "distinct (map new P)" and "k < length P"
  shows "\<not> (\<exists>j<k. new (P ! j) = new (P ! k))"
proof
  assume "\<exists>j<k. new (P ! j) = new (P ! k)"
  then obtain j where j: "j < k" and eq: "new (P ! j) = new (P ! k)" by blast
  have lj: "j < length (map new P)" and lk: "k < length (map new P)"
    using j assms(2) by simp_all
  have "(map new P ! j = map new P ! k) = (j = k)"
    using assms(1) lj lk by (rule nth_eq_iff_index_eq)
  moreover have "map new P ! j = map new P ! k"
    using j assms(2) eq by simp
  ultimately have "j = k" by blast
  with j show False by simp
qed

text \<open>Known originals and pairwise distinct targets: no validation error, whatever the probe.\<close>

lemma known_distinct_no_errors:
  assumes "\<forall>op\<in>set P. original op \<in> set S" and "distinct (map new P)"
  shows "validationErrors (validate S E P) = []"
proof -
  have "filter (\<lambda>i. severity i = Error) (issues_at S E P k) = []" if k: "k < length P" for k
  proof -
    from k assms(1) have "original (P ! k) \<in> set S" by simp
    moreover have "\<not> (\<exists>j<k. new (P ! j) = new (P ! k))"
      using assms(2) k by (rule distinct_new_no_earlier)
    ultimately show ?thesis by (simp add: errors_at_checks [OF k])
  qed
  then have "\<forall>k<length P. \<forall>i\<in>set (issues_at S E P k). severity i \<noteq> Error"
    by (simp add: filter_empty_conv)
  then have "filter (\<lambda>i. severity i = Error) (report (validate S E P)) = []"
    by (auto simp: report_validate filter_empty_conv)
  then show ?thesis by (simp add: validationErrors_def)
qed

section \<open>Structure of the execution loop\<close>

lemmas exec_simps =
  execute_def execute_op_def fs_before_def renamed_line_def failed_line_def dir_rename_def
  main_flow_def validation_lines_def proposed_changes_def proposed_line_def

lemma execution_loop_console:
  "execution_loop rename fs console ops =
     (console @ fst (execution_loop rename fs [] ops), snd (execution_loop rename fs [] ops))"
proof (induction ops arbitrary: fs console)
  case Nil
  show ?case by simp
next
  case (Cons op rest)
  obtain line fs' where step: "execute_op rename fs op = (line, fs')"
    by (cases "execute_op rename fs op")
  show ?case
    using Cons.IH [of fs' "console @ [line]"] Cons.IH [of fs' "[line]"]
    by (simp add: step)
qed

lemma execute_Nil: "execute rename fs [] = ([], fs)"
  by (simp add: execute_def)

lemma execute_Cons:
  "execute rename fs (op # rest) =
     (fst (execute_op rename fs op) # fst (execute rename (snd (execute_op rename fs op)) rest),
      snd (execute rename (snd (execute_op rename fs op)) rest))"
proof -
  obtain line fs' where step: "execute_op rename fs op = (line, fs')"
    by (cases "execute_op rename fs op")
  show ?thesis
    using execution_loop_console [of rename fs' "[line]" rest]
    by (simp add: execute_def step)
qed

lemma execute_append:
  "execute rename fs (xs @ ys) =
     (fst (execute rename fs xs) @ fst (execute rename (snd (execute rename fs xs)) ys),
      snd (execute rename (snd (execute rename fs xs)) ys))"
  by (induction xs arbitrary: fs) (simp_all add: execute_Nil execute_Cons)

lemma length_execute: "length (fst (execute rename fs P)) = length P"
  by (induction P arbitrary: fs) (simp_all add: execute_Nil execute_Cons)

lemma snd_execute_op:
  "snd (execute_op rename fs op) = snd (rename fs (original op) (new op))"
  by (simp add: execute_op_def split: prod.splits sum.splits)

lemma fst_execute_op_Inl:
  "fst (rename fs (original op) (new op)) = Inl err \<Longrightarrow>
   fst (execute_op rename fs op) = failed_line op err"
  by (cases "rename fs (original op) (new op)") (simp add: execute_op_def)

lemma fst_execute_op_Inr:
  "fst (rename fs (original op) (new op)) = Inr u \<Longrightarrow>
   fst (execute_op rename fs op) = renamed_line op"
  by (cases "rename fs (original op) (new op)") (simp add: execute_op_def)

lemma fst_execute_op_cases:
  "fst (execute_op rename fs op) = renamed_line op
   \<or> (\<exists>e. fst (execute_op rename fs op) = failed_line op e)"
proof (cases "fst (rename fs (original op) (new op))")
  case (Inl e)
  then show ?thesis by (auto simp: fst_execute_op_Inl)
next
  case (Inr u)
  then show ?thesis by (simp add: fst_execute_op_Inr)
qed

lemma execute_split:
  assumes "k < length P"
  shows "execute rename fs P =
     (fst (execute rename fs (take k P))
        @ fst (execute_op rename (fs_before rename fs P k) (P ! k))
        # fst (execute rename (snd (execute_op rename (fs_before rename fs P k) (P ! k)))
                 (drop (Suc k) P)),
      snd (execute rename (snd (execute_op rename (fs_before rename fs P k) (P ! k)))
                 (drop (Suc k) P)))"
proof -
  have "P = take k P @ P ! k # drop (Suc k) P"
    using assms by (simp add: id_take_nth_drop)
  then have "execute rename fs P = execute rename fs (take k P @ P ! k # drop (Suc k) P)"
    by simp
  then show ?thesis
    by (simp only: execute_append execute_Cons fs_before_def fst_conv snd_conv)
qed

lemma execute_nth:
  assumes "k < length P"
  shows "fst (execute rename fs P) ! k = fst (execute_op rename (fs_before rename fs P k) (P ! k))"
proof -
  have "length (fst (execute rename fs (take k P))) = k"
    using assms by (simp add: length_execute)
  then show ?thesis
    by (simp add: execute_split [OF assms] nth_append)
qed

lemma fs_before_Suc:
  assumes "k < length P"
  shows "fs_before rename fs P (Suc k) =
         snd (rename (fs_before rename fs P k) (original (P ! k)) (new (P ! k)))"
  using assms
  by (simp add: fs_before_def take_Suc_conv_app_nth execute_append execute_Cons execute_Nil
      snd_execute_op)

subsection \<open>Execution on a directory\<close>

lemma dir_execute_op_present:
  "original op \<in> d \<Longrightarrow>
   execute_op dir_rename d op = (renamed_line op, insert (new op) (d - {original op}))"
  by (simp add: execute_op_def dir_rename_def)

lemma dir_execute_op_absent:
  "original op \<notin> d \<Longrightarrow>
   execute_op dir_rename d op = (failed_line op (ENOENT (original op) (new op)), d)"
  by (simp add: execute_op_def dir_rename_def)

lemma dir_execute_subset:
  "snd (execute dir_rename d P) \<subseteq> d \<union> new ` set P"
proof (induction P arbitrary: d)
  case Nil
  show ?case by (simp add: execute_Nil)
next
  case (Cons op rest)
  show ?case
  proof (cases "original op \<in> d")
    case True
    then show ?thesis
      using Cons.IH [of "insert (new op) (d - {original op})"]
      by (auto simp: execute_Cons dir_execute_op_present)
  next
    case False
    then show ?thesis
      using Cons.IH [of d] by (auto simp: execute_Cons dir_execute_op_absent)
  qed
qed

lemma dir_execute_all_fail:
  "\<forall>op\<in>set P. original op \<notin> d \<Longrightarrow>
   execute dir_rename d P = (map (\<lambda>op. failed_line op (ENOENT (original op) (new op))) P, d)"
  by (induction P) (simp_all add: execute_Nil execute_Cons dir_execute_op_absent)

lemma renamed_not_failed: "renamed_line op \<noteq> failed_line op' e"
  by (simp add: renamed_line_def failed_line_def)

lemma dir_originals_gone:
  assumes "fst (execute dir_rename d P) = map renamed_line P"
    and "original ` set P \<inter> new ` set P = {}"
  shows "\<forall>op\<in>set P. original op \<notin> snd (execute dir_rename d P)"
  using assms
proof (induction P arbitrary: d)
  case Nil
  show ?case by simp
next
  case (Cons op rest)
  have present: "original op \<in> d"
  proof (rule ccontr)
    assume "original op \<notin> d"
    then have "fst (execute dir_rename d (op # rest)) \<noteq> map renamed_line (op # rest)"
      by (simp add: execute_Cons dir_execute_op_absent renamed_not_failed [symmetric])
    with Cons.prems(1) show False by simp
  qed
  let ?d1 = "insert (new op) (d - {original op})"
  have step: "execute_op dir_rename d op = (renamed_line op, ?d1)"
    using present by (rule dir_execute_op_present)
  have rest_ok: "fst (execute dir_rename ?d1 rest) = map renamed_line rest"
    using Cons.prems(1) by (simp add: execute_Cons step)
  have disj: "original ` set rest \<inter> new ` set rest = {}"
    using Cons.prems(2) by auto
  have final: "snd (execute dir_rename d (op # rest)) = snd (execute dir_rename ?d1 rest)"
    by (simp add: execute_Cons step)
  have "original op \<noteq> new op" using Cons.prems(2) by auto
  then have "original op \<notin> ?d1" by simp
  moreover have "original op \<notin> new ` set rest" using Cons.prems(2) by auto
  ultimately have head: "original op \<notin> snd (execute dir_rename ?d1 rest)"
    using dir_execute_subset [of ?d1 rest] by blast
  from Cons.IH [OF rest_ok disj] head show ?case
    by (simp add: final)
qed

section \<open>The inputs that validation reads\<close>

lemma validate_op_cong:
  "set S = set S' \<Longrightarrow> E (new op) = E' (new op) \<Longrightarrow>
   validate_op S E P st op = validate_op S' E' P st op"
  by (simp add: validate_op_def)

lemma validation_loop_cong:
  assumes "set S = set S'" and "\<forall>op\<in>set xs. E (new op) = E' (new op)"
  shows "validation_loop S E P st xs = validation_loop S' E' P st xs"
  using assms(2)
proof (induction xs arbitrary: st)
  case Nil
  show ?case by simp
next
  case (Cons op rest)
  have "validate_op S E P st op = validate_op S' E' P st op"
  proof (rule validate_op_cong)
    show "set S = set S'" by (rule assms(1))
    show "E (new op) = E' (new op)" using Cons.prems by simp
  qed
  moreover have "\<forall>op\<in>set rest. E (new op) = E' (new op)"
    using Cons.prems by simp
  ultimately show ?case using Cons.IH by simp
qed

section \<open>Claims about the validation loop\<close>

subsection \<open>C1: unknown originals\<close>

text \<open>
  Claim C1. Every operation of the plan whose \<open>original\<close> is not in the snapshot yields
  the error \<^verbatim>\<open>Original file not found\<close>: it is the first issue of that operation's
  iteration, it is in the report and in \<^verbatim>\<open>validationErrors\<close>, and the gate then asks the
  user, so the operation is not accepted in silence. The theorem holds for each such
  operation, hence for all of them when every original is absent.
\<close>

theorem unknown_original_reported:
  assumes "k < length P" and "original (P ! k) \<notin> set S"
  shows "hd (issues_at S E P k) = unknown_original (P ! k)
       \<and> unknown_original (P ! k) \<in> set (report (validate S E P))
       \<and> ''Original file not found: '' @ original (P ! k)
           \<in> set (validationErrors (validate S E P))
       \<and> asks_continueAnyway (validate S E P)"
proof -
  have first: "hd (issues_at S E P k) = unknown_original (P ! k)"
    using assms(2) by (simp add: issues_at_eq)
  have "unknown_original (P ! k) \<in> set (issues_at S E P k)"
    using assms(2) by (simp add: issues_at_eq)
  then have mem: "unknown_original (P ! k) \<in> set (report (validate S E P))"
    using issues_at_subset [OF assms(1)] by blast
  have "message (unknown_original (P ! k)) \<in> set (validationErrors (validate S E P))"
    by (rule error_in_validationErrors [OF mem]) (simp add: issue_severity)
  then have msg: "''Original file not found: '' @ original (P ! k)
      \<in> set (validationErrors (validate S E P))"
    by (simp add: unknown_original_def)
  then have "validationErrors (validate S E P) \<noteq> []" by auto
  then have "asks_continueAnyway (validate S E P)"
    by (simp add: asks_continueAnyway_def)
  with first mem msg show ?thesis by simp
qed

text \<open>
  Witness of C1: the plan of the specification's scenario, whose second original is unknown.
\<close>

theorem unknown_original_reported_witness:
  "(1::nat) < length [rename_to ''a.txt'' ''a_final.txt'', rename_to ''c.txt'' ''c_final.txt'']
   \<and> original ([rename_to ''a.txt'' ''a_final.txt'', rename_to ''c.txt'' ''c_final.txt''] ! 1)
        \<notin> set [''a.txt'', ''b.txt'']
   \<and> ''Original file not found: c.txt''
        \<in> set (validationErrors (validate [''a.txt'', ''b.txt'']
             (dir_pathExists {''a.txt'', ''b.txt''})
             [rename_to ''a.txt'' ''a_final.txt'', rename_to ''c.txt'' ''c_final.txt'']))
   \<and> report (validate [''a.txt'', ''b.txt''] (dir_pathExists {''a.txt'', ''b.txt''})
             [rename_to ''a.txt'' ''a_final.txt'', rename_to ''c.txt'' ''c_final.txt''])
      = [ValidationIssue Error ''Original file not found: c.txt'']"
  using unknown_original_reported [of 1
      "[rename_to ''a.txt'' ''a_final.txt'', rename_to ''c.txt'' ''c_final.txt'']"
      "[''a.txt'', ''b.txt'']" "dir_pathExists {''a.txt'', ''b.txt''}"]
  by (simp add: run_simps)

subsection \<open>C2: duplicate targets\<close>

text \<open>
  Claim C2 as stated fails: \<^verbatim>\<open>newNames.has(op.new)\<close> is tested before \<^verbatim>\<open>newNames.add\<close>,
  so the first operation with a given target is not flagged. The plan of the claim yields
  one duplicate-target error, and the iteration of its first operation yields no issue.
\<close>

theorem duplicate_target_first_counterexample:
  "report (validate [''a.txt'', ''b.txt''] (dir_pathExists {''a.txt'', ''b.txt''})
     [rename_to ''a.txt'' ''x.txt'', rename_to ''b.txt'' ''x.txt''])
   = [ValidationIssue Error ''Duplicate target filename: x.txt'']
   \<and> issues_at [''a.txt'', ''b.txt''] (dir_pathExists {''a.txt'', ''b.txt''})
     [rename_to ''a.txt'' ''x.txt'', rename_to ''b.txt'' ''x.txt''] 0 = []"
  by (simp add: run_simps)

text \<open>
  Claim C2, amended. An operation is flagged with a duplicate-target error, once, exactly
  when an earlier operation of the plan has the same \<open>new\<close>; the first operation with a
  given target is not flagged.
\<close>

theorem duplicate_target_later_ops:
  assumes "k < length P"
  shows "filter (\<lambda>i. i = duplicate_target (P ! k)) (issues_at S E P k) =
         (if \<exists>j<k. new (P ! j) = new (P ! k) then [duplicate_target (P ! k)] else [])"
  using assms by (simp add: issues_at_checks issue_distinct)

text \<open>
  Witness of C2: the second operation of the claim's plan is flagged, and the plan has one error.
\<close>

theorem duplicate_target_later_ops_witness:
  "(1::nat) < length [rename_to ''a.txt'' ''x.txt'', rename_to ''b.txt'' ''x.txt'']
   \<and> filter (\<lambda>i. i = ValidationIssue Error ''Duplicate target filename: x.txt'')
        (issues_at [''a.txt'', ''b.txt''] (dir_pathExists {''a.txt'', ''b.txt''})
           [rename_to ''a.txt'' ''x.txt'', rename_to ''b.txt'' ''x.txt''] 1)
      = [ValidationIssue Error ''Duplicate target filename: x.txt'']
   \<and> validationErrors (validate [''a.txt'', ''b.txt''] (dir_pathExists {''a.txt'', ''b.txt''})
           [rename_to ''a.txt'' ''x.txt'', rename_to ''b.txt'' ''x.txt''])
      = [''Duplicate target filename: x.txt'']"
  using duplicate_target_later_ops [of 1 "[rename_to ''a.txt'' ''x.txt'', rename_to ''b.txt'' ''x.txt'']"
      "[''a.txt'', ''b.txt'']" "dir_pathExists {''a.txt'', ''b.txt''}"]
  by (simp add: run_simps)

subsection \<open>C3: invalid file names\<close>

text \<open>
  Claim C3 as stated fails: the loop does not look at the syntax of \<open>new\<close>. A plan with
  an empty target and a target with a path separator, both originals known, has no
  validation error. (The empty name joins to the target directory itself, which exists;
  the probe therefore answers yes for it.)
\<close>

theorem invalid_filename_counterexample:
  "validationErrors (validate [''a.txt'', ''b.txt'']
      (dir_pathExists {''a.txt'', ''b.txt'', []})
      [rename_to ''a.txt'' [], rename_to ''b.txt'' ''sub/b.txt'']) = []"
  by (simp add: run_simps)

text \<open>
  Claim C3, amended. An operation whose \<open>new\<close> is empty or contains a path separator
  yields a validation error exactly when its \<open>original\<close> is not in the snapshot or an
  earlier operation has the same \<open>new\<close>.
\<close>

theorem invalid_filename_errors:
  assumes "k < length P" and "invalid_filename (new (P ! k))"
  shows "(\<exists>i\<in>set (issues_at S E P k). severity i = Error) =
         (original (P ! k) \<notin> set S \<or> (\<exists>j<k. new (P ! j) = new (P ! k)))"
proof -
  define u where "u = (original (P ! k) \<notin> set S)"
  define d where "d = (\<exists>j<k. new (P ! j) = new (P ! k))"
  define w where "w = (E (new (P ! k)) \<and> (\<forall>x\<in>set P. original x \<noteq> new (P ! k)))"
  have eq: "issues_at S E P k =
      (if u then [unknown_original (P ! k)] else [])
      @ (if d then [duplicate_target (P ! k)] else [])
      @ (if w then [target_exists (P ! k)] else [])"
    unfolding u_def d_def w_def by (rule issues_at_checks [OF assms(1)])
  have "(\<exists>i\<in>set (issues_at S E P k). severity i = Error) = (u \<or> d)"
    unfolding eq by (cases u; cases d; cases w) (simp_all add: issue_severity)
  then show ?thesis by (simp only: u_def d_def)
qed

text \<open>
  Witness of C3: one operation with a known original and a path separator in its target.
\<close>

theorem invalid_filename_errors_witness:
  "(0::nat) < length [rename_to ''a.txt'' ''sub/a.txt'']
   \<and> invalid_filename (new ([rename_to ''a.txt'' ''sub/a.txt''] ! 0))
   \<and> filter (\<lambda>i. severity i = Error)
        (issues_at [''a.txt''] (dir_pathExists {''a.txt''}) [rename_to ''a.txt'' ''sub/a.txt''] 0)
      = []"
  using invalid_filename_errors [of 0 "[rename_to ''a.txt'' ''sub/a.txt'']"
      "[''a.txt'']" "dir_pathExists {''a.txt''}"]
  by (simp add: run_simps invalid_filename_def)

subsection \<open>C4: a target that exists on disk\<close>

text \<open>
  Claim C4 as stated fails: \<^verbatim>\<open>operations.find(o => o.original === op.new)\<close> searches
  the whole plan, the operation itself included. An identity operation on a file that is
  on disk, in a plan with no other operation, yields no warning.
\<close>

theorem target_exists_identity_counterexample:
  "dir_pathExists {''a.txt''} (new (rename_to ''a.txt'' ''a.txt''))
   \<and> report (validate [''a.txt''] (dir_pathExists {''a.txt''}) [rename_to ''a.txt'' ''a.txt'']) = []"
  by (simp add: run_simps)

text \<open>
  Claim C4, amended. When \<open>new\<close> of an operation exists on disk and no operation of the
  plan, the operation itself included, has that name as its \<open>original\<close>, the loop
  yields a warning for it: the issue has severity \<open>Warning\<close>, its message goes to
  \<^verbatim>\<open>console.warn\<close> and is not in \<^verbatim>\<open>validationErrors\<close>, and the errors of the
  iteration are those of the two other checks only. A non-empty plan in which every
  original is in the snapshot and the targets are pairwise distinct, so that a target that
  exists on disk is the only issue it can have, has no validation error whatever exists on
  disk: the user is not asked \<^verbatim>\<open>continueAnyway\<close>, and after the confirmation the
  execution loop runs on the filesystem as it is.
\<close>

theorem target_exists_warning:
  "(k < length P \<and> pathExists fs (new (P ! k)) \<and> (\<forall>x\<in>set P. original x \<noteq> new (P ! k))
      \<longrightarrow> target_exists (P ! k) \<in> set (issues_at S (pathExists fs) P k)
        \<and> severity (target_exists (P ! k)) = Warning
        \<and> message (target_exists (P ! k)) \<in> set (warnings (validate S (pathExists fs) P))
        \<and> message (target_exists (P ! k))
            \<notin> set (validationErrors (validate S (pathExists fs) P))
        \<and> filter (\<lambda>i. severity i = Error) (issues_at S (pathExists fs) P k) =
            (if original (P ! k) \<notin> set S then [unknown_original (P ! k)] else [])
            @ (if \<exists>j<k. new (P ! j) = new (P ! k) then [duplicate_target (P ! k)] else []))
   \<and> (P \<noteq> [] \<and> (\<forall>op\<in>set P. original op \<in> set S) \<and> distinct (map new P)
      \<longrightarrow> validationErrors (validate S (pathExists fs) P) = []
        \<and> \<not> asks_continueAnyway (validate S (pathExists fs) P)
        \<and> main_flow pathExists rename S P continueAnyway True fs =
            (validate S (pathExists fs) P,
             proposed_changes P @ map Warn (warnings (validate S (pathExists fs) P))
               @ fst (execute rename fs P) @ [Log ''Done.''],
             snd (execute rename fs P)))"
proof (intro conjI impI)
  assume h: "k < length P \<and> pathExists fs (new (P ! k))
      \<and> (\<forall>x\<in>set P. original x \<noteq> new (P ! k))"
  then show at: "target_exists (P ! k) \<in> set (issues_at S (pathExists fs) P k)"
    by (simp add: issues_at_checks)
  show sev: "severity (target_exists (P ! k)) = Warning"
    by (simp add: issue_severity)
  from at h have "target_exists (P ! k) \<in> set (report (validate S (pathExists fs) P))"
    using issues_at_subset [of k P S "pathExists fs"] by blast
  then show "message (target_exists (P ! k)) \<in> set (warnings (validate S (pathExists fs) P))"
    using sev by (rule warning_in_warnings)
  show "message (target_exists (P ! k)) \<notin> set (validationErrors (validate S (pathExists fs) P))"
    by (rule warning_not_in_validationErrors)
  from h have k: "k < length P" by simp
  show "filter (\<lambda>i. severity i = Error) (issues_at S (pathExists fs) P k) =
            (if original (P ! k) \<notin> set S then [unknown_original (P ! k)] else [])
            @ (if \<exists>j<k. new (P ! j) = new (P ! k) then [duplicate_target (P ! k)] else [])"
    by (rule errors_at_checks [OF k])
next
  assume h: "P \<noteq> [] \<and> (\<forall>op\<in>set P. original op \<in> set S) \<and> distinct (map new P)"
  then have "\<forall>op\<in>set P. original op \<in> set S" and "distinct (map new P)" by simp_all
  then show none: "validationErrors (validate S (pathExists fs) P) = []"
    by (rule known_distinct_no_errors)
  then show gate: "\<not> asks_continueAnyway (validate S (pathExists fs) P)"
    by (simp add: asks_continueAnyway_def)
  from h gate show "main_flow pathExists rename S P continueAnyway True fs =
            (validate S (pathExists fs) P,
             proposed_changes P @ map Warn (warnings (validate S (pathExists fs) P))
               @ fst (execute rename fs P) @ [Log ''Done.''],
             snd (execute rename fs P))"
    by (simp add: main_flow_def validation_lines_def Let_def split: prod.splits)
qed

text \<open>
  Witness of C4: the specification's scenario, a target that is on disk and in no original.
\<close>

theorem target_exists_warning_witness:
  "(0::nat) < length [rename_to ''a.txt'' ''out.txt'']
   \<and> dir_pathExists {''a.txt'', ''out.txt''} (new ([rename_to ''a.txt'' ''out.txt''] ! 0))
   \<and> original ([rename_to ''a.txt'' ''out.txt''] ! 0) \<in> set [''a.txt'']
   \<and> distinct (map new [rename_to ''a.txt'' ''out.txt''])
   \<and> target_exists (rename_to ''a.txt'' ''out.txt'')
        \<in> set (issues_at [''a.txt''] (dir_pathExists {''a.txt'', ''out.txt''})
             [rename_to ''a.txt'' ''out.txt''] 0)
   \<and> report (validate [''a.txt''] (dir_pathExists {''a.txt'', ''out.txt''})
        [rename_to ''a.txt'' ''out.txt''])
      = [ValidationIssue Warning ''Warning: Target file out.txt already exists.'']
   \<and> validationErrors (validate [''a.txt''] (dir_pathExists {''a.txt'', ''out.txt''})
        [rename_to ''a.txt'' ''out.txt'']) = []
   \<and> snd (main_flow dir_pathExists dir_rename [''a.txt''] [rename_to ''a.txt'' ''out.txt'']
        False True {''a.txt'', ''out.txt''})
      = ([Log (CHR 0x0A # ''Proposed Changes:''),
          Log ''a.txt -> out.txt  (No reason provided)'',
          Warn ''Warning: Target file out.txt already exists.'',
          Log ''Renamed: a.txt -> out.txt'', Log ''Done.''], {''out.txt''})"
proof -
  let ?S = "[''a.txt'']"
  let ?d = "{''a.txt'', ''out.txt''}"
  let ?P = "[rename_to ''a.txt'' ''out.txt'']"
  have len: "(0::nat) < length ?P" by simp
  have ex: "dir_pathExists ?d (new (?P ! 0))"
    by (simp add: rename_to_def dir_pathExists_def)
  have away: "\<forall>x\<in>set ?P. original x \<noteq> new (?P ! 0)"
    by (simp add: rename_to_def)
  have known: "\<forall>op\<in>set ?P. original op \<in> set ?S"
    by (simp add: rename_to_def)
  have known0: "original (?P ! 0) \<in> set ?S"
    by (simp add: rename_to_def)
  have dist: "distinct (map new ?P)" by simp
  have rep: "report (validate ?S (dir_pathExists ?d) ?P)
      = [ValidationIssue Warning ''Warning: Target file out.txt already exists.'']"
    by (simp add: run_simps)
  have warn: "warnings (validate ?S (dir_pathExists ?d) ?P)
      = [''Warning: Target file out.txt already exists.'']"
    by (simp add: warnings_def rep)
  have shown: "(proposed_changes ?P :: io_error console_line list)
      = [Log (CHR 0x0A # ''Proposed Changes:''), Log ''a.txt -> out.txt  (No reason provided)'']"
    by (simp add: proposed_changes_def proposed_line_def rename_to_def)
  have run: "execute dir_rename ?d ?P = ([Log ''Renamed: a.txt -> out.txt''], {''out.txt''})"
    by (simp add: exec_simps rename_to_def)
  note inst = target_exists_warning [of 0 ?P dir_pathExists ?d ?S dir_rename False]
  from inst len ex away
  have "target_exists (?P ! 0) \<in> set (issues_at ?S (dir_pathExists ?d) ?P 0)"
    by blast
  then have at: "target_exists (rename_to ''a.txt'' ''out.txt'')
      \<in> set (issues_at ?S (dir_pathExists ?d) ?P 0)"
    by simp
  have ne: "?P \<noteq> []" by simp
  from inst ne known dist
  have "validationErrors (validate ?S (dir_pathExists ?d) ?P) = []
      \<and> main_flow dir_pathExists dir_rename ?S ?P False True ?d =
            (validate ?S (dir_pathExists ?d) ?P,
             proposed_changes ?P @ map Warn (warnings (validate ?S (dir_pathExists ?d) ?P))
               @ fst (execute dir_rename ?d ?P) @ [Log ''Done.''],
             snd (execute dir_rename ?d ?P))"
    by blast
  with len ex known0 dist at rep warn shown run show ?thesis by simp
qed

subsection \<open>C7: every check on every operation, in order\<close>

text \<open>
  Claim C7 as stated fails: there is no fourth check. The second operation below fails
  every check the loop has and its target contains a path separator; its iteration yields
  three issues, and none about the file name.
\<close>

theorem validation_checks_counterexample:
  "report (validate [''a.txt''] (dir_pathExists {''a.txt'', ''x/y''})
     [rename_to ''b.txt'' ''x/y'', rename_to ''c.txt'' ''x/y''])
   = [ValidationIssue Error ''Original file not found: b.txt'',
      ValidationIssue Warning ''Warning: Target file x/y already exists.'',
      ValidationIssue Error ''Original file not found: c.txt'',
      ValidationIssue Error ''Duplicate target filename: x/y'',
      ValidationIssue Warning ''Warning: Target file x/y already exists.'']"
  by (simp add: run_simps)

text \<open>
  Claim C7, amended. The loop does not stop at a failing operation: the report is the
  concatenation, in plan order, of the issues of each iteration, and each iteration yields,
  in this order and each independently of the others, the unknown-original error, the
  duplicate-target error (when an earlier operation has the same target) and the
  target-exists warning. There is no check of the file name syntax.
\<close>

theorem validation_report_order:
  "report (validate S E P) = concat (map (issues_at S E P) [0..<length P])
   \<and> (\<forall>k<length P. issues_at S E P k =
        (if original (P ! k) \<notin> set S then [unknown_original (P ! k)] else [])
        @ (if \<exists>j<k. new (P ! j) = new (P ! k) then [duplicate_target (P ! k)] else [])
        @ (if E (new (P ! k)) \<and> (\<forall>x\<in>set P. original x \<noteq> new (P ! k))
           then [target_exists (P ! k)] else []))"
  using report_validate [of S E P] issues_at_checks [of _ P S E] by blast

text \<open>
  Witness of C7: an operation that fails all three checks, in check order.
\<close>

theorem validation_report_order_witness:
  "(1::nat) < length [rename_to ''g.txt'' ''x.txt'', rename_to ''h.txt'' ''x.txt'']
   \<and> issues_at [''a.txt''] (dir_pathExists {''a.txt'', ''x.txt''})
     [rename_to ''g.txt'' ''x.txt'', rename_to ''h.txt'' ''x.txt''] 1
     = [ValidationIssue Error ''Original file not found: h.txt'',
        ValidationIssue Error ''Duplicate target filename: x.txt'',
        ValidationIssue Warning ''Warning: Target file x.txt already exists.'']"
proof -
  let ?S = "[''a.txt'']"
  let ?E = "dir_pathExists {''a.txt'', ''x.txt''}"
  let ?P = "[rename_to ''g.txt'' ''x.txt'', rename_to ''h.txt'' ''x.txt'']"
  have len: "(1::nat) < length ?P" by simp
  have checks: "\<forall>k<length ?P. issues_at ?S ?E ?P k =
        (if original (?P ! k) \<notin> set ?S then [unknown_original (?P ! k)] else [])
        @ (if \<exists>j<k. new (?P ! j) = new (?P ! k) then [duplicate_target (?P ! k)] else [])
        @ (if ?E (new (?P ! k)) \<and> (\<forall>x\<in>set ?P. original x \<noteq> new (?P ! k))
           then [target_exists (?P ! k)] else [])"
    using validation_report_order [of ?S ?E ?P] by (rule conjunct2)
  have one: "issues_at ?S ?E ?P 1
      = [ValidationIssue Error ''Original file not found: h.txt'',
         ValidationIssue Error ''Duplicate target filename: x.txt'',
         ValidationIssue Warning ''Warning: Target file x.txt already exists.'']"
    using checks [rule_format, OF len]
    by (simp add: rename_to_def dir_pathExists_def unknown_original_def duplicate_target_def
        target_exists_def)
  from len one show ?thesis by (intro conjI)
qed

subsection \<open>C9: identity operations\<close>

text \<open>
  Claim C9. An operation whose \<open>new\<close> equals its own \<open>original\<close>, with that name in the
  snapshot and on disk and no other operation with the same target, yields no issue at
  all: no error, and no warning, since \<^verbatim>\<open>operations.find\<close> finds the operation itself.
\<close>

theorem identity_operation_silent:
  assumes "k < length P" and "new (P ! k) = original (P ! k)"
    and "original (P ! k) \<in> set S" and "E (new (P ! k))"
    and "\<forall>j<length P. j \<noteq> k \<longrightarrow> new (P ! j) \<noteq> new (P ! k)"
  shows "issues_at S E P k = []"
proof -
  have "P ! k \<in> set P" using assms(1) by simp
  then have "\<not> (\<forall>x\<in>set P. original x \<noteq> new (P ! k))"
    using assms(2) by auto
  moreover have "\<not> (\<exists>j<k. new (P ! j) = new (P ! k))"
    using assms(1,5) by auto
  ultimately show ?thesis
    using assms(1,3) by (simp add: issues_at_checks)
qed

text \<open>
  Witness of C9: an identity operation followed by an unrelated one.
\<close>

theorem identity_operation_silent_witness:
  "(0::nat) < length [rename_to ''a.txt'' ''a.txt'', rename_to ''b.txt'' ''c.txt'']
   \<and> dir_pathExists {''a.txt'', ''b.txt''} ''a.txt''
   \<and> issues_at [''a.txt'', ''b.txt''] (dir_pathExists {''a.txt'', ''b.txt''})
        [rename_to ''a.txt'' ''a.txt'', rename_to ''b.txt'' ''c.txt''] 0 = []"
  using identity_operation_silent [of 0
      "[rename_to ''a.txt'' ''a.txt'', rename_to ''b.txt'' ''c.txt'']"
      "[''a.txt'', ''b.txt'']" "dir_pathExists {''a.txt'', ''b.txt''}"]
  by (simp add: run_simps less_Suc_eq)

subsection \<open>C10: every target is registered\<close>

text \<open>
  Claim C10. \<^verbatim>\<open>newNames.add(op.new)\<close> runs in every iteration, whatever the checks
  said: a later operation with the \<open>new\<close> of an earlier one is flagged as a duplicate
  target, with no condition on the earlier operation's \<open>original\<close>; and at the end
  \<open>newNames\<close> holds the target of every operation.
\<close>

theorem new_name_registered_regardless:
  assumes "j < k" and "k < length P" and "new (P ! j) = new (P ! k)"
  shows "duplicate_target (P ! k) \<in> set (issues_at S E P k)
       \<and> new (P ! j) \<in> newNames (state_before S E P k)
       \<and> newNames (validate S E P) = new ` set P"
proof -
  have dup: "duplicate_target (P ! k) \<in> set (issues_at S E P k)"
    using assms by (auto simp: issues_at_checks)
  have "k \<le> length P" using assms(2) by simp
  then have reg: "new (P ! j) \<in> newNames (state_before S E P k)"
    using assms(1) by (auto simp: newNames_state_before earlier_new_iff)
  have "newNames (validate S E P) = new ` set P"
    by (simp add: validate_def newNames_validation_loop)
  with dup reg show ?thesis by simp
qed

text \<open>
  Witness of C10: the earlier operation has an unknown original, the later one is flagged.
\<close>

theorem new_name_registered_regardless_witness:
  "(0::nat) < 1
   \<and> (1::nat) < length [rename_to ''ghost.txt'' ''x.txt'', rename_to ''b.txt'' ''x.txt'']
   \<and> original ([rename_to ''ghost.txt'' ''x.txt'', rename_to ''b.txt'' ''x.txt''] ! 0)
        \<notin> set [''a.txt'', ''b.txt'']
   \<and> report (validate [''a.txt'', ''b.txt''] (dir_pathExists {''a.txt'', ''b.txt''})
        [rename_to ''ghost.txt'' ''x.txt'', rename_to ''b.txt'' ''x.txt''])
      = [ValidationIssue Error ''Original file not found: ghost.txt'',
         ValidationIssue Error ''Duplicate target filename: x.txt'']
   \<and> duplicate_target (rename_to ''b.txt'' ''x.txt'')
        \<in> set (issues_at [''a.txt'', ''b.txt''] (dir_pathExists {''a.txt'', ''b.txt''})
        [rename_to ''ghost.txt'' ''x.txt'', rename_to ''b.txt'' ''x.txt''] 1)"
  using new_name_registered_regardless [of 0 1
      "[rename_to ''ghost.txt'' ''x.txt'', rename_to ''b.txt'' ''x.txt'']"
      "[''a.txt'', ''b.txt'']" "dir_pathExists {''a.txt'', ''b.txt''}"]
  by (simp add: run_simps)

section \<open>Claims about the execution loop\<close>

subsection \<open>C5: a failing operation does not stop the batch\<close>

text \<open>
  Claim C5. When the rename call of operation \<open>k\<close> fails with \<open>err\<close>, the console
  holds the lines of the operations before \<open>k\<close>, then the failure line of \<open>k\<close> with
  \<open>err\<close> unchanged, then the lines of the operations after \<open>k\<close>, executed in plan
  order from the filesystem that the failing call left. There is one line per operation;
  each operation is attempted on the filesystem its predecessors left, nothing is undone,
  and each line is either the success line or a failure line of its operation: no
  operation is passed over.
\<close>

theorem executor_continues_after_failure:
  assumes "k < length P"
    and "fst (rename (fs_before rename fs P k) (original (P ! k)) (new (P ! k))) = Inl err"
  shows "execute rename fs P =
           (fst (execute rename fs (take k P)) @ failed_line (P ! k) err
              # fst (execute rename (fs_before rename fs P (Suc k)) (drop (Suc k) P)),
            snd (execute rename (fs_before rename fs P (Suc k)) (drop (Suc k) P)))
       \<and> length (fst (execute rename fs P)) = length P
       \<and> (\<forall>i<length P. fst (execute rename fs P) ! i =
             fst (execute_op rename (fs_before rename fs P i) (P ! i)))
       \<and> (\<forall>i<length P. fs_before rename fs P (Suc i) =
             snd (rename (fs_before rename fs P i) (original (P ! i)) (new (P ! i))))
       \<and> (\<forall>i<length P. fst (execute rename fs P) ! i = renamed_line (P ! i)
             \<or> (\<exists>e. fst (execute rename fs P) ! i = failed_line (P ! i) e))"
proof (intro conjI allI impI)
  show "execute rename fs P =
           (fst (execute rename fs (take k P)) @ failed_line (P ! k) err
              # fst (execute rename (fs_before rename fs P (Suc k)) (drop (Suc k) P)),
            snd (execute rename (fs_before rename fs P (Suc k)) (drop (Suc k) P)))"
  proof -
    have line: "fst (execute_op rename (fs_before rename fs P k) (P ! k)) = failed_line (P ! k) err"
      using assms(2) by (rule fst_execute_op_Inl)
    show ?thesis
      using execute_split [OF assms(1), of rename fs]
      by (simp only: line fs_before_Suc [OF assms(1)] snd_execute_op)
  qed
  show "length (fst (execute rename fs P)) = length P"
    by (rule length_execute)
next
  fix i assume "i < length P"
  then show "fst (execute rename fs P) ! i =
      fst (execute_op rename (fs_before rename fs P i) (P ! i))"
    by (rule execute_nth)
next
  fix i assume "i < length P"
  then show "fs_before rename fs P (Suc i) =
      snd (rename (fs_before rename fs P i) (original (P ! i)) (new (P ! i)))"
    by (rule fs_before_Suc)
next
  fix i assume "i < length P"
  then show "fst (execute rename fs P) ! i = renamed_line (P ! i)
      \<or> (\<exists>e. fst (execute rename fs P) ! i = failed_line (P ! i) e)"
    using fst_execute_op_cases [of rename "fs_before rename fs P i" "P ! i"]
    by (simp add: execute_nth)
qed

text \<open>
  Witness of C5: the second of three operations names a file that does not exist.
\<close>

theorem executor_continues_after_failure_witness:
  "(1::nat) < length [rename_to ''a.txt'' ''x.txt'', rename_to ''g.txt'' ''y.txt'',
       rename_to ''b.txt'' ''z.txt'']
   \<and> fst (dir_rename (fs_before dir_rename {''a.txt'', ''b.txt''}
          [rename_to ''a.txt'' ''x.txt'', rename_to ''g.txt'' ''y.txt'',
           rename_to ''b.txt'' ''z.txt''] 1) ''g.txt'' ''y.txt'')
      = Inl (ENOENT ''g.txt'' ''y.txt'')
   \<and> execute dir_rename {''a.txt'', ''b.txt''}
        [rename_to ''a.txt'' ''x.txt'', rename_to ''g.txt'' ''y.txt'',
         rename_to ''b.txt'' ''z.txt'']
      = ([Log ''Renamed: a.txt -> x.txt'',
          ErrorLine ''Failed to rename g.txt:'' (ENOENT ''g.txt'' ''y.txt''),
          Log ''Renamed: b.txt -> z.txt''], {''x.txt'', ''z.txt''})"
proof -
  let ?d = "{''a.txt'', ''b.txt''}"
  let ?P = "[rename_to ''a.txt'' ''x.txt'', rename_to ''g.txt'' ''y.txt'',
       rename_to ''b.txt'' ''z.txt'']"
  have len: "(1::nat) < length ?P" by simp
  have before: "fs_before dir_rename ?d ?P 1 = {''b.txt'', ''x.txt''}"
    by (auto simp: exec_simps rename_to_def)
  have after: "fs_before dir_rename ?d ?P (Suc 1) = {''b.txt'', ''x.txt''}"
    by (auto simp: exec_simps rename_to_def)
  have fails: "fst (dir_rename (fs_before dir_rename ?d ?P 1) (original (?P ! 1)) (new (?P ! 1)))
      = Inl (ENOENT ''g.txt'' ''y.txt'')"
    using before by (simp add: dir_rename_def rename_to_def)
  have "execute dir_rename ?d ?P =
           (fst (execute dir_rename ?d (take 1 ?P))
              @ failed_line (?P ! 1) (ENOENT ''g.txt'' ''y.txt'')
              # fst (execute dir_rename (fs_before dir_rename ?d ?P (Suc 1)) (drop (Suc 1) ?P)),
            snd (execute dir_rename (fs_before dir_rename ?d ?P (Suc 1)) (drop (Suc 1) ?P)))"
    using executor_continues_after_failure
      [where k = 1 and P = ?P and rename = dir_rename and fs = ?d
         and err = "ENOENT ''g.txt'' ''y.txt''", OF len fails]
    by (rule conjunct1)
  then have run: "execute dir_rename ?d ?P
      = ([Log ''Renamed: a.txt -> x.txt'',
          ErrorLine ''Failed to rename g.txt:'' (ENOENT ''g.txt'' ''y.txt''),
          Log ''Renamed: b.txt -> z.txt''], {''x.txt'', ''z.txt''})"
    using after by (auto simp: exec_simps rename_to_def)
  from fails have "fst (dir_rename (fs_before dir_rename ?d ?P 1) ''g.txt'' ''y.txt'')
      = Inl (ENOENT ''g.txt'' ''y.txt'')"
    by (simp add: rename_to_def)
  with len run show ?thesis by (intro conjI)
qed

subsection \<open>C6: running the same plan again\<close>

text \<open>
  Claim C6. After a run in which every operation was renamed, with the originals of the
  plan disjoint from its targets, no original exists in the directory any more, and a
  second run of the same plan yields the failure line for every operation and leaves the
  directory as it is.
\<close>

theorem rerun_fails_every_operation:
  assumes "fst (execute dir_rename d P) = map renamed_line P"
    and "original ` set P \<inter> new ` set P = {}"
  shows "(\<forall>op\<in>set P. \<not> dir_pathExists (snd (execute dir_rename d P)) (original op))
       \<and> execute dir_rename (snd (execute dir_rename d P)) P =
           (map (\<lambda>op. failed_line op (ENOENT (original op) (new op))) P,
            snd (execute dir_rename d P))"
proof -
  have gone: "\<forall>op\<in>set P. original op \<notin> snd (execute dir_rename d P)"
    using assms by (rule dir_originals_gone)
  then show ?thesis
    by (simp add: dir_execute_all_fail dir_pathExists_def)
qed

text \<open>
  Witness of C6: two files renamed, then the same plan again.
\<close>

theorem rerun_fails_every_operation_witness:
  "fst (execute dir_rename {''a.txt'', ''b.txt''}
       [rename_to ''a.txt'' ''x.txt'', rename_to ''b.txt'' ''y.txt''])
     = map renamed_line [rename_to ''a.txt'' ''x.txt'', rename_to ''b.txt'' ''y.txt'']
   \<and> original ` set [rename_to ''a.txt'' ''x.txt'', rename_to ''b.txt'' ''y.txt'']
       \<inter> new ` set [rename_to ''a.txt'' ''x.txt'', rename_to ''b.txt'' ''y.txt''] = {}
   \<and> snd (execute dir_rename {''a.txt'', ''b.txt''}
       [rename_to ''a.txt'' ''x.txt'', rename_to ''b.txt'' ''y.txt'']) = {''x.txt'', ''y.txt''}
   \<and> execute dir_rename {''x.txt'', ''y.txt''}
       [rename_to ''a.txt'' ''x.txt'', rename_to ''b.txt'' ''y.txt'']
     = ([ErrorLine ''Failed to rename a.txt:'' (ENOENT ''a.txt'' ''x.txt''),
         ErrorLine ''Failed to rename b.txt:'' (ENOENT ''b.txt'' ''y.txt'')],
        {''x.txt'', ''y.txt''})"
proof -
  let ?d = "{''a.txt'', ''b.txt''}"
  let ?P = "[rename_to ''a.txt'' ''x.txt'', rename_to ''b.txt'' ''y.txt'']"
  have first: "execute dir_rename ?d ?P = (map renamed_line ?P, {''x.txt'', ''y.txt''})"
    by (auto simp: exec_simps rename_to_def)
  have ok: "fst (execute dir_rename ?d ?P) = map renamed_line ?P"
    by (simp add: first)
  have disj: "original ` set ?P \<inter> new ` set ?P = {}"
    by (simp add: rename_to_def)
  have "execute dir_rename (snd (execute dir_rename ?d ?P)) ?P =
           (map (\<lambda>op. failed_line op (ENOENT (original op) (new op))) ?P,
            snd (execute dir_rename ?d ?P))"
    using rerun_fails_every_operation [OF ok disj] by (rule conjunct2)
  then have again: "execute dir_rename {''x.txt'', ''y.txt''} ?P
     = ([ErrorLine ''Failed to rename a.txt:'' (ENOENT ''a.txt'' ''x.txt''),
         ErrorLine ''Failed to rename b.txt:'' (ENOENT ''b.txt'' ''y.txt'')],
        {''x.txt'', ''y.txt''})"
    by (simp add: first) (simp add: failed_line_def rename_to_def)
  from ok disj first again show ?thesis by simp
qed

section \<open>Claims about determinism\<close>

subsection \<open>C8: validation is a function of what it reads\<close>

text \<open>
  Claim C8. The validation state, and so the report and its order, is determined by the
  plan, by the set of names in the snapshot and by the answers of the existence probe on
  the targets of the plan: two runs that agree on these yield the same state. Validation
  reaches the filesystem through the probe only: without confirmation the filesystem at
  the end of the run is the one at its start, and with confirmation it is either that or
  what the execution loop alone makes of it.
\<close>

theorem validate_deterministic:
  assumes "set S = set S'" and "\<forall>op\<in>set P. E (new op) = E' (new op)"
  shows "validate S E P = validate S' E' P
       \<and> snd (snd (main_flow pathExists rename S P continueAnyway False fs)) = fs
       \<and> (snd (snd (main_flow pathExists rename S P continueAnyway True fs)) = fs
          \<or> snd (snd (main_flow pathExists rename S P continueAnyway True fs))
             = snd (execute rename fs P))"
proof (intro conjI)
  show "validate S E P = validate S' E' P"
    unfolding validate_def using assms by (rule validation_loop_cong)
  show "snd (snd (main_flow pathExists rename S P continueAnyway False fs)) = fs"
    by (simp add: main_flow_def Let_def)
  show "snd (snd (main_flow pathExists rename S P continueAnyway True fs)) = fs
      \<or> snd (snd (main_flow pathExists rename S P continueAnyway True fs))
         = snd (execute rename fs P)"
    by (simp add: main_flow_def Let_def split: prod.splits)
qed

text \<open>
  Witness of C8: two snapshots with the same names and two directories that agree on the target.
\<close>

theorem validate_deterministic_witness:
  "set [''a.txt'', ''b.txt''] = set [''b.txt'', ''a.txt'', ''a.txt'']
   \<and> dir_pathExists {''a.txt'', ''b.txt'', ''out.txt''} ''out.txt''
      = dir_pathExists {''out.txt'', ''z.txt''} ''out.txt''
   \<and> validate [''a.txt'', ''b.txt''] (dir_pathExists {''a.txt'', ''b.txt'', ''out.txt''})
        [rename_to ''a.txt'' ''out.txt'']
      = validate [''b.txt'', ''a.txt'', ''a.txt''] (dir_pathExists {''out.txt'', ''z.txt''})
        [rename_to ''a.txt'' ''out.txt'']
   \<and> snd (snd (main_flow dir_pathExists dir_rename [''a.txt'', ''b.txt'']
        [rename_to ''a.txt'' ''out.txt''] True False {''a.txt'', ''b.txt'', ''out.txt''}))
      = {''a.txt'', ''b.txt'', ''out.txt''}"
proof -
  let ?P = "[rename_to ''a.txt'' ''out.txt'']"
  have snap: "set [''a.txt'', ''b.txt''] = set [''b.txt'', ''a.txt'', ''a.txt'']"
    by auto
  have probe: "\<forall>op\<in>set ?P. dir_pathExists {''a.txt'', ''b.txt'', ''out.txt''} (new op)
      = dir_pathExists {''out.txt'', ''z.txt''} (new op)"
    by (simp add: rename_to_def dir_pathExists_def)
  note inst = validate_deterministic [OF snap probe,
      where pathExists = dir_pathExists and rename = dir_rename and continueAnyway = True
        and fs = "{''a.txt'', ''b.txt'', ''out.txt''}"]
  from probe have "dir_pathExists {''a.txt'', ''b.txt'', ''out.txt''} ''out.txt''
      = dir_pathExists {''out.txt'', ''z.txt''} ''out.txt''"
    by (simp add: rename_to_def)
  with snap inst show ?thesis by blast
qed

end
